theory Spec2Isabelle
  imports Main "HOL-Library.Sublist"
begin

section \<open>Python primitives used by trainer.py\<close>

text \<open>
  Commands are Python \<open>str\<close> values; they are modelled as \<open>string\<close> (lists of 8-bit
  characters, read as the code points 0 to 255). The exceptions that the modelled code can
  raise are values of \<open>error\<close>; a \<open>RuntimeError\<close> carries its message.
\<close>

datatype error = ValueError | ZeroDivisionError | RuntimeError string

text \<open>\<open>sub in s\<close> for two strings: \<open>sub\<close> occurs in \<open>s\<close> as a contiguous substring.\<close>

fun py_in :: "string \<Rightarrow> string \<Rightarrow> bool" where
  "py_in sub [] = (sub = [])"
| "py_in sub (c # cs) = (prefix sub (c # cs) \<or> py_in sub cs)"

text \<open>
  \<open>s.split(sep)\<close> for a non-empty separator: scan from the left, cut at every
  non-overlapping occurrence of \<open>sep\<close>. \<open>acc\<close> holds the current piece, reversed.
  (trainer.py only splits at the constants \<open>"@"\<close> and \<open>" to "\<close>.)
\<close>

function py_split :: "string \<Rightarrow> string \<Rightarrow> string \<Rightarrow> string list" where
  "py_split sep acc [] = [rev acc]"
| "py_split sep acc (c # cs) =
     (if sep \<noteq> [] \<and> prefix sep (c # cs)
      then rev acc # py_split sep [] (drop (length sep) (c # cs))
      else py_split sep (c # acc) cs)"
  by pat_completeness auto
termination
  by (relation "measure (\<lambda>(sep, acc, s). length s)") auto

text \<open>
  \<open>int(s)\<close> for a string is the interpreter's builtin, not code of trainer.py: its
  grammar (whitespace, sign, underscores, other scripts' digits) and its limit on the
  number of digits depend on the interpreter. The model takes it as a parameter
  \<open>int_of :: string \<Rightarrow> int option\<close> of every function that reaches a call of \<open>int\<close>;
  \<open>None\<close> stands for the \<open>ValueError\<close> that \<open>int\<close> raises. Nothing is assumed about it.
\<close>

section \<open>Configuration, engines and the module's globals\<close>

text \<open>
  The fields of \<open>Config\<close> that trainer.py reads. \<open>save_ckpt_every\<close> may be unset
  (\<open>None\<close>); the cadences are integers.
\<close>

record config =
  max_iter :: int
  save_ckpt_every :: "int option"
  eval_every :: int
  save_on_quit :: bool

text \<open>The two attributes of \<open>Engines\<close> that trainer.py reads.\<close>

record engines =
  eng_global_step :: int
  eng_cfg :: config

text \<open>
  The module-level names \<open>_engines\<close> and \<open>_command\<close> are annotated but not assigned when
  the module is loaded, so reading one raises \<open>NameError\<close> until something binds it:
  \<open>None\<close> is "unbound".
\<close>

record module_globals =
  g_engines :: "engines option"
  g_command :: "string option"

definition module_init :: module_globals where
  "module_init = \<lparr>g_engines = None, g_command = None\<rparr>"

text \<open>
  \<open>get_global_step\<close>: the bare \<open>except\<close> turns every failure into the return value
  \<open>None\<close> (\<open>Inr None\<close>); the function never raises.
\<close>

definition get_global_step :: "module_globals \<Rightarrow> error + int option" where
  "get_global_step m =
     (case g_engines m of
        Some e \<Rightarrow> Inr (Some (eng_global_step e))
      | None \<Rightarrow> Inr None)"

definition not_setup :: error where
  "not_setup = RuntimeError ''Trainer has not been setup. Have you called trainer.train?''"

definition get_cfg :: "module_globals \<Rightarrow> error + config" where
  "get_cfg m =
     (case g_engines m of
        Some e \<Rightarrow> Inr (eng_cfg e)
      | None \<Rightarrow> Inl not_setup)"

definition get_cmd :: "module_globals \<Rightarrow> error + string" where
  "get_cmd m =
     (case g_command m of
        Some c \<Rightarrow> Inr c
      | None \<Rightarrow> Inl not_setup)"

definition get_iteration :: "module_globals \<Rightarrow> error + int option" where
  "get_iteration = get_global_step"

section \<open>Operator input\<close>

text \<open>
  The environment of the process at the moment \<open>_non_blocking_input\<close> is called: the line
  (if any) that the operator has typed and that waits on standard input, and the
  process's global rank.
\<close>

record process_env =
  stdin_line :: "string option"
  global_rank :: nat

text \<open>
  \<open>_non_blocking_input\<close>: the body that selected on standard input and broadcast the
  leader's line is commented out ("deprecated because doesn't work on slurm - sbatch");
  what is left assigns the one-blank string to a local and returns it.
\<close>

definition non_blocking_input :: "process_env \<Rightarrow> string" where
  "non_blocking_input env = '' ''"

section \<open>The infinite epoch iterator\<close>

text \<open>
  What the training loop does to its collaborators, in the order it does it. A run is
  described by the list of these effects (oldest first).
\<close>

type_synonym event = "string \<times> int"

datatype 'b effect =
    NewEpoch
  | Fetch 'b
  | OpenWriter
  | Step int
  | AddScalar int
  | Flush
  | LogStats int
  | LogRegistered string
  | LogError
  | LogEvents "event list"
  | LogRemaining int
  | SaveCheckpoint int int
  | Eval int

text \<open>
  \<open>_make_infinite_epochs(dl)\<close> is a generator. Its state between two pulls is the part
  of the current pass over \<open>dl\<close> that has not been yielded yet (\<open>[]\<close> before the first
  pull and after the last item of a pass). A pull yields the next item of the pass; when
  the pass is exhausted it logs "New epoch starts." and starts \<open>dl\<close> again. On an empty
  \<open>dl\<close> the \<open>while True\<close> loop logs forever and never yields: \<open>None\<close>.
\<close>

fun make_infinite_epochs :: "'b list \<Rightarrow> 'b list \<Rightarrow> ('b effect list \<times> 'b \<times> 'b list) option" where
  "make_infinite_epochs dl (b # rest) = Some ([], b, rest)"
| "make_infinite_epochs dl [] =
     (case dl of
        [] \<Rightarrow> None
      | b # rest \<Rightarrow> Some ([NewEpoch], b, rest))"

text \<open>
  Pulling \<open>n\<close> items from the generator, starting in state \<open>rest\<close>: the effects observed
  (notifications and yielded items), or \<open>None\<close> when a pull never returns.
\<close>

fun pull :: "nat \<Rightarrow> 'b list \<Rightarrow> 'b list \<Rightarrow> 'b effect list option" where
  "pull 0 dl rest = Some []"
| "pull (Suc n) dl rest =
     (case make_infinite_epochs dl rest of
        None \<Rightarrow> None
      | Some (effs, b, rest') \<Rightarrow>
          (case pull n dl rest' of
             None \<Rightarrow> None
           | Some t \<Rightarrow> Some (effs @ Fetch b # t)))"

section \<open>The training loop\<close>

text \<open>
  The state that the loop body of \<open>train\<close> owns: the list \<open>events\<close> and the effects
  performed so far.
\<close>

record 'b loop_state =
  events :: "event list"
  trace :: "'b effect list"

definition log :: "'b effect \<Rightarrow> 'b loop_state \<Rightarrow> 'b loop_state" where
  "log e st = st\<lparr>trace := trace st @ [e]\<rparr>"

text \<open>
  How a piece of the loop ends: it falls through (\<open>Normal\<close>), executes \<open>return\<close>,
  executes \<open>break\<close>, raises an exception that nothing catches, or never gets its next
  batch (\<open>Hang\<close>).
\<close>

datatype outcome = Normal | Return | Break | Raise error | Hang

text \<open>
  Modelled from the spec: \<open>Engines.step\<close> is not part of trainer.py; the iteration is
  "advanced by exactly one unit per successful step".
\<close>

definition engine_step :: "int \<Rightarrow> int" where
  "engine_step g = g + 1"

text \<open>
  Lines 177-184: a command that contains \<open>@\<close> is split at \<open>@\<close> and unpacked into
  \<open>what, when\<close> outside the \<open>try\<close> (any number of pieces other than two raises
  \<open>ValueError\<close>); \<open>int(when)\<close> is inside the \<open>try\<close>. The live command becomes empty.
\<close>

definition register_event :: "(string \<Rightarrow> int option) \<Rightarrow> string \<Rightarrow> 'b loop_state \<Rightarrow> error + string \<times> 'b loop_state" where
  "register_event int_of command st =
     (if py_in ''@'' command then
        (case py_split ''@'' [] command of
           [what, when] \<Rightarrow>
             (case int_of when of
                Some n \<Rightarrow>
                  Inr ([], log (LogRegistered command) (st\<lparr>events := events st @ [(what, n)]\<rparr>))
              | None \<Rightarrow> Inr ([], log LogError st))
         | _ \<Rightarrow> Inl ValueError)
      else Inr (command, st))"

text \<open>Line 187: the events kept at iteration \<open>g\<close>. Line 188: the commands that fire.\<close>

definition pending_events :: "int \<Rightarrow> event list \<Rightarrow> event list" where
  "pending_events g evs = filter (\<lambda>e. snd e \<ge> g) evs"

definition firing_events :: "int \<Rightarrow> event list \<Rightarrow> event list" where
  "firing_events g evs = filter (\<lambda>e. snd e = g) evs"

definition fired_commands :: "int \<Rightarrow> event list \<Rightarrow> string list" where
  "fired_commands g evs = map fst (firing_events g evs)"

text \<open>
  Lines 198-207: the time query. The product with the elapsed time (a float) and its
  formatting are not modelled; the logged estimate is represented by the number of
  remaining iterations.
\<close>

definition time_query :: "(string \<Rightarrow> int option) \<Rightarrow> config \<Rightarrow> int \<Rightarrow> string \<Rightarrow> 'b loop_state \<Rightarrow> 'b loop_state" where
  "time_query int_of cfg g command st =
     (if py_in '' to '' command then
        (case int_of (last (py_split '' to '' [] command)) of
           Some n \<Rightarrow> log (LogRemaining (n - g + 1)) st
         | None \<Rightarrow> log (LogRemaining (max_iter cfg - g + 1)) (log LogError st))
      else log (LogRemaining (max_iter cfg - g + 1)) st)"

text \<open>Line 209: \<open>cfg.save_ckpt_every or cfg.eval_every\<close> (\<open>None\<close> and \<open>0\<close> are falsy).\<close>

definition ckpt_cadence :: "config \<Rightarrow> int" where
  "ckpt_cadence cfg =
     (case save_ckpt_every cfg of
        None \<Rightarrow> eval_every cfg
      | Some n \<Rightarrow> if n = 0 then eval_every cfg else n)"

definition saving_commands :: "config \<Rightarrow> string list" where
  "saving_commands cfg = [''save''] @ (if save_on_quit cfg then [''quit''] else [])"

text \<open>
  Line 216: the condition under which a checkpoint is saved (evaluated when the cadence
  is not zero).
\<close>

definition checkpoint_due :: "config \<Rightarrow> int \<Rightarrow> string \<Rightarrow> bool" where
  "checkpoint_due cfg g command =
     (g mod ckpt_cadence cfg = 0 \<or> command \<in> set (saving_commands cfg)
      \<or> g = 100 \<or> g = 300 \<or> g = 500)"

text \<open>
  Lines 191-259: the body of \<open>for command in commands\<close> at iteration \<open>g\<close>. The
  remainders are computed first in their conditions, so a cadence of zero raises
  \<open>ZeroDivisionError\<close>.
\<close>

definition handle_command :: "(string \<Rightarrow> int option) \<Rightarrow> config \<Rightarrow> int \<Rightarrow> string \<Rightarrow> 'b loop_state \<Rightarrow> outcome \<times> 'b loop_state" where
  "handle_command int_of cfg g command st0 =
     (let st1 = (if command \<in> set [''event show'', ''event'']
                 then log (LogEvents (events st0)) st0 else st0);
          st2 = (if command = ''event clear'' then st1\<lparr>events := []\<rparr> else st1);
          st3 = (if py_in ''time'' command then time_query int_of cfg g command st2 else st2)
      in if ckpt_cadence cfg = 0 then (Raise ZeroDivisionError, st3)
         else
           let st4 = (if checkpoint_due cfg g command
                      then log (SaveCheckpoint g (g div ckpt_cadence cfg)) st3 else st3)
           in if eval_every cfg = 0 then (Raise ZeroDivisionError, st4)
              else
                let st5 = (if g mod eval_every cfg = 0 \<or> command \<in> set [''eval'']
                           then log (Eval g) st4 else st4)
                in if command \<in> set [''quit''] then (Return, st5) else (Normal, st5))"

fun run_commands :: "(string \<Rightarrow> int option) \<Rightarrow> config \<Rightarrow> int \<Rightarrow> string list \<Rightarrow> 'b loop_state \<Rightarrow> outcome \<times> 'b loop_state" where
  "run_commands int_of cfg g [] st = (Normal, st)"
| "run_commands int_of cfg g (command # commands) st =
     (case handle_command int_of cfg g command st of
        (Normal, st') \<Rightarrow> run_commands int_of cfg g commands st'
      | r \<Rightarrow> r)"

text \<open>
  Lines 168-259: one tick, entered with the batch already fetched and the engine at
  iteration \<open>g0\<close>; \<open>polled\<close> is what \<open>_non_blocking_input()\<close> returns at line 175.
\<close>

definition tick :: "(string \<Rightarrow> int option) \<Rightarrow> config \<Rightarrow> string \<Rightarrow> int \<Rightarrow> 'b loop_state \<Rightarrow> outcome \<times> 'b loop_state" where
  "tick int_of cfg polled g0 st =
     (let g = engine_step g0;
          st1 = st\<lparr>trace := trace st @ [Step g, AddScalar g, Flush, LogStats g]\<rparr>
      in case register_event int_of polled st1 of
           Inl e \<Rightarrow> (Raise e, st1)
         | Inr (command, st2) \<Rightarrow>
             let st3 = st2\<lparr>events := pending_events g (events st2)\<rparr>;
                 commands = [command] @ fired_commands g (events st3)
             in run_commands int_of cfg g commands st3)"

text \<open>
  Lines 164-259: \<open>for batch in _make_infinite_epochs(train_dl)\<close>. The batch is pulled
  from the generator first; the test against \<open>cfg.max_iter\<close> is the first statement of
  the body. \<open>poll i\<close> is the value that polling the operator returns while the engine is
  at iteration \<open>i\<close>; \<open>rest\<close> is the generator's state.
\<close>

function train_loop ::
  "(string \<Rightarrow> int option) \<Rightarrow> (int \<Rightarrow> string) \<Rightarrow> config \<Rightarrow> 'b list \<Rightarrow> 'b list \<Rightarrow> int \<Rightarrow> 'b loop_state \<Rightarrow> outcome \<times> 'b loop_state" where
  "train_loop int_of poll cfg dl rest g st =
     (case make_infinite_epochs dl rest of
        None \<Rightarrow> (Hang, st)
      | Some (effs, batch, rest') \<Rightarrow>
          let st1 = st\<lparr>trace := trace st @ effs @ [Fetch batch]\<rparr>
          in if g \<ge> max_iter cfg then (Break, st1)
             else
               (case tick int_of cfg (poll (engine_step g)) g st1 of
                  (Normal, st2) \<Rightarrow> train_loop int_of poll cfg dl rest' (engine_step g) st2
                | r \<Rightarrow> r))"
  by pat_completeness auto
termination
  by (relation "measure (\<lambda>(int_of, poll, cfg, dl, rest, g, st). nat (max_iter cfg - g))")
     (auto simp: engine_step_def)

text \<open>
  \<open>train\<close>, with the source of the operator's commands as a parameter: the pre-loop
  command (lines 151-157), the telemetry writer, the loop, and the final flush of line
  262, which is reached after \<open>break\<close> only. \<open>eng\<close> is what \<open>engines_loader()\<close> returns.
  The dump and the logging of the configuration before the loop leave no effect in the
  trace.
\<close>

definition train_with :: "(string \<Rightarrow> int option) \<Rightarrow> (int \<Rightarrow> string) \<Rightarrow> engines \<Rightarrow> 'b list \<Rightarrow> outcome \<times> 'b loop_state" where
  "train_with int_of poll eng dl =
     (let g0 = eng_global_step eng;
          command = poll g0;
          st0 = \<lparr>events = [],
                 trace = (if command \<in> set [''eval'', ''eval_quit''] then [Eval g0] else [])\<rparr>
      in if command \<in> set [''quit'', ''eval_quit''] then (Return, st0)
         else
           (case train_loop int_of poll (eng_cfg eng) dl [] g0 (log OpenWriter st0) of
              (Break, st) \<Rightarrow> (Normal, log Flush st)
            | r \<Rightarrow> r))"

text \<open>
  \<open>train\<close> as shipped: every command comes from \<open>_non_blocking_input\<close>; \<open>env i\<close> is the
  process environment while the engine is at iteration \<open>i\<close>.
\<close>

definition train :: "(string \<Rightarrow> int option) \<Rightarrow> (int \<Rightarrow> process_env) \<Rightarrow> engines \<Rightarrow> 'b list \<Rightarrow> outcome \<times> 'b loop_state" where
  "train int_of env eng dl = train_with int_of (\<lambda>i. non_blocking_input (env i)) eng dl"


declare train_loop.simps [simp del]

text \<open>
  Observers of a run, used to state properties of traces: the number of batches pulled
  from the iterator, of training steps, of flushes of the telemetry sink and of logged
  registrations so far.
\<close>

fun is_fetch :: "'b effect \<Rightarrow> bool" where
  "is_fetch (Fetch b) = True"
| "is_fetch _ = False"

fun is_step :: "'b effect \<Rightarrow> bool" where
  "is_step (Step i) = True"
| "is_step _ = False"

fun is_flush :: "'b effect \<Rightarrow> bool" where
  "is_flush Flush = True"
| "is_flush _ = False"

fun is_registered :: "'b effect \<Rightarrow> bool" where
  "is_registered (LogRegistered c) = True"
| "is_registered _ = False"

definition fetched :: "'b loop_state \<Rightarrow> nat" where
  "fetched st = length (filter is_fetch (trace st))"

definition stepped :: "'b loop_state \<Rightarrow> nat" where
  "stepped st = length (filter is_step (trace st))"

definition flushed :: "'b loop_state \<Rightarrow> nat" where
  "flushed st = length (filter is_flush (trace st))"

definition registered :: "'b loop_state \<Rightarrow> nat" where
  "registered st = length (filter is_registered (trace st))"

text \<open>
  For the examples that need a value of \<open>int\<close>: its results on the three strings that
  the examples pass to it (\<open>int("12")\<close> is 12, \<open>int("-5")\<close> is -5, \<open>int("abc")\<close> raises).
  No other value of it is used.
\<close>

definition example_int :: "string \<Rightarrow> int option" where
  "example_int s = (if s = ''12'' then Some 12 else if s = ''-5'' then Some (- 5) else None)"


section \<open>Accessors before the trainer is set up\<close>

text \<open>
  C10. When the trainer has not been set up, \<open>get_global_step\<close> and its alias
  \<open>get_iteration\<close> return \<open>None\<close> without failing, whereas \<open>get_cfg\<close> and \<open>get_cmd\<close>
  raise a \<open>RuntimeError\<close> whose message says that the trainer has not been set up.
\<close>

theorem accessors_before_setup:
  "get_global_step module_init = Inr None \<and>
   get_iteration module_init = Inr None \<and>
   get_cfg module_init =
     Inl (RuntimeError ''Trainer has not been setup. Have you called trainer.train?'') \<and>
   get_cmd module_init =
     Inl (RuntimeError ''Trainer has not been setup. Have you called trainer.train?'')"
  by (simp add: get_global_step_def get_iteration_def get_cfg_def get_cmd_def module_init_def
        not_setup_def)


section \<open>The infinite epoch iterator: passes and notifications\<close>

lemma pull_within_pass: "n \<le> length xs \<Longrightarrow> pull n dl xs = Some (map Fetch (take n xs))"
proof (induction xs arbitrary: n)
  case Nil
  then show ?case by simp
next
  case (Cons x xs)
  then show ?case by (cases n) simp_all
qed

lemma pull_rest_of_pass:
  "pull (length xs + n) dl xs = map_option (\<lambda>t. map Fetch xs @ t) (pull n dl [])"
proof (induction xs)
  case Nil
  show ?case by (simp add: option.map_ident)
next
  case (Cons x xs)
  then show ?case by (cases "pull n dl []") simp_all
qed

lemma pull_full_pass:
  assumes "dl \<noteq> []"
  shows "pull (length dl + n) dl [] = map_option (\<lambda>t. NewEpoch # map Fetch dl @ t) (pull n dl [])"
proof -
  from assms obtain b rest where dl: "dl = b # rest" by (cases dl) auto
  have "pull (length rest + n) dl rest = map_option (\<lambda>t. map Fetch rest @ t) (pull n dl [])"
    by (rule pull_rest_of_pass)
  then show ?thesis
    by (cases "pull n dl []") (simp_all add: dl)
qed

lemma pull_passes:
  assumes "dl \<noteq> []"
  shows "pull (k * length dl + n) dl [] =
         map_option (\<lambda>t. concat (replicate k (NewEpoch # map Fetch dl)) @ t) (pull n dl [])"
proof (induction k)
  case 0
  show ?case by (simp add: option.map_ident)
next
  case (Suc k)
  have "pull (Suc k * length dl + n) dl [] = pull (length dl + (k * length dl + n)) dl []"
    by (simp add: add.assoc)
  also have "\<dots> = map_option (\<lambda>t. NewEpoch # map Fetch dl @ t) (pull (k * length dl + n) dl [])"
    by (rule pull_full_pass [OF assms])
  also have "\<dots> = map_option (\<lambda>t. concat (replicate (Suc k) (NewEpoch # map Fetch dl)) @ t)
                     (pull n dl [])"
    by (simp add: Suc.IH option.map_comp comp_def)
  finally show ?case .
qed

lemma pull_partial:
  assumes "0 < r" and "r \<le> length dl"
  shows "pull r dl [] = Some (NewEpoch # map Fetch (take r dl))"
proof -
  from assms obtain b rest where dl: "dl = b # rest" by (cases dl) auto
  from assms obtain r' where r: "r = Suc r'" by (cases r) auto
  from assms have "r' \<le> length rest" by (simp add: dl r)
  then have "pull r' dl rest = Some (map Fetch (take r' rest))"
    by (rule pull_within_pass)
  then show ?thesis by (simp add: dl r)
qed

text \<open>
  C8, as stated, fails: for a source of length 2, pulling \<open>3 * 2 + 2\<close> items emits the
  pass-boundary notification four times, not three; the fourth precedes item \<open>3L + 1\<close>.
\<close>

theorem four_notifications_for_3L_plus_2:
  "pull (3 * length [10::nat, 20] + 2) [10::nat, 20] [] =
     Some [NewEpoch, Fetch 10, Fetch 20, NewEpoch, Fetch 10, Fetch 20,
           NewEpoch, Fetch 10, Fetch 20, NewEpoch, Fetch 10, Fetch 20]"
  by code_simp

text \<open>
  C8, amended. For every finite ordered source of length \<open>L \<ge> 1\<close>, pulling \<open>3L + 2\<close>
  items yields three full passes, each preceded by the notification and each listing the
  source's items in order without a gap or a repetition, and then the start of further
  passes: for \<open>L \<ge> 2\<close> a fourth notification followed by the first two items again (so
  the notification is emitted four times, immediately before items \<open>1\<close>, \<open>L + 1\<close>,
  \<open>2L + 1\<close> and \<open>3L + 1\<close>), for \<open>L = 1\<close> two more one-item passes, each with its
  notification.
\<close>

theorem infinite_epochs_3L_plus_2:
  assumes "dl \<noteq> []"
  shows "pull (3 * length dl + 2) dl [] =
     Some (concat (replicate 3 (NewEpoch # map Fetch dl)) @
           (if length dl = 1 then concat (replicate 2 (NewEpoch # map Fetch dl))
            else NewEpoch # map Fetch (take 2 dl)))"
proof (cases "length dl = 1")
  case True
  have "pull (5 * length dl + 0) dl [] =
        map_option (\<lambda>t. concat (replicate 5 (NewEpoch # map Fetch dl)) @ t) (pull 0 dl [])"
    by (rule pull_passes [OF assms])
  moreover have "5 * length dl + 0 = 3 * length dl + 2" using True by simp
  moreover have "replicate 5 (NewEpoch # map Fetch dl) =
      replicate 3 (NewEpoch # map Fetch dl) @ replicate 2 (NewEpoch # map Fetch dl)"
    by (simp add: replicate_add [symmetric])
  ultimately show ?thesis using True by simp
next
  case False
  with assms have L: "2 \<le> length dl" by (cases dl) (auto simp: Suc_le_eq)
  have "pull (3 * length dl + 2) dl [] =
        map_option (\<lambda>t. concat (replicate 3 (NewEpoch # map Fetch dl)) @ t) (pull 2 dl [])"
    by (rule pull_passes [OF assms])
  moreover have "pull 2 dl [] = Some (NewEpoch # map Fetch (take 2 dl))"
    using L by (intro pull_partial) simp_all
  ultimately show ?thesis using False by simp
qed

text \<open>The amended C8 at a source of three items: eleven pulls.\<close>

theorem infinite_epochs_3L_plus_2_witness:
  "pull 11 [10::nat, 20, 30] [] =
     Some [NewEpoch, Fetch 10, Fetch 20, Fetch 30, NewEpoch, Fetch 10, Fetch 20, Fetch 30,
           NewEpoch, Fetch 10, Fetch 20, Fetch 30, NewEpoch, Fetch 10, Fetch 20]"
proof -
  have ne: "[10::nat, 20, 30] \<noteq> []" by simp
  have n: "3 * length [10::nat, 20, 30] + 2 = 11" by simp
  have r: "concat (replicate 3 (NewEpoch # map Fetch [10::nat, 20, 30])) @
           (if length [10::nat, 20, 30] = 1
            then concat (replicate 2 (NewEpoch # map Fetch [10::nat, 20, 30]))
            else NewEpoch # map Fetch (take 2 [10::nat, 20, 30])) =
     [NewEpoch, Fetch 10, Fetch 20, Fetch 30, NewEpoch, Fetch 10, Fetch 20, Fetch 30,
      NewEpoch, Fetch 10, Fetch 20, Fetch 30, NewEpoch, Fetch 10, Fetch 20]"
    by (simp add: numeral_3_eq_3)
  from infinite_epochs_3L_plus_2 [OF ne] show ?thesis
    by (simp only: n r)
qed


section \<open>Splitting a command\<close>

lemma py_in_single: "py_in [c] s = (c \<in> set s)"
  by (induction s) auto

lemma py_split_no_sep: "c \<notin> set w \<Longrightarrow> py_split [c] acc w = [rev acc @ w]"
  by (induction w arbitrary: acc) auto

lemma py_split_first:
  "c \<notin> set w \<Longrightarrow> py_split [c] acc (w @ c # s) = (rev acc @ w) # py_split [c] [] s"
  by (induction w arbitrary: acc) auto

lemma register_event_no_at:
  "\<not> py_in ''@'' command \<Longrightarrow> register_event int_of command st = Inr (command, st)"
  by (simp add: register_event_def)

lemma register_event_error: "register_event int_of polled st = Inl e \<Longrightarrow> e = ValueError"
  by (simp add: register_event_def split: if_splits list.splits option.splits)

section \<open>The schedule during a tick\<close>

lemma log_events: "events (log e st) = events st"
  by (simp add: log_def)

lemma time_query_events: "events (time_query int_of cfg g c st) = events st"
  by (simp add: time_query_def log_events split: option.splits)

lemma handle_command_events:
  "set (events (snd (handle_command int_of cfg g c st))) \<subseteq> set (events st)"
  by (simp add: handle_command_def Let_def log_events time_query_events)

lemma run_commands_events:
  "set (events (snd (run_commands int_of cfg g cs st))) \<subseteq> set (events st)"
proof (induction cs arbitrary: st)
  case Nil
  show ?case by simp
next
  case (Cons c cs)
  obtain o1 st1 where h: "handle_command int_of cfg g c st = (o1, st1)"
    by (cases "handle_command int_of cfg g c st")
  have s1: "set (events st1) \<subseteq> set (events st)"
    using handle_command_events [of int_of cfg g c st] by (simp add: h)
  show ?case
  proof (cases "o1 = Normal")
    case True
    then have "run_commands int_of cfg g (c # cs) st = run_commands int_of cfg g cs st1"
      by (simp add: h)
    with Cons.IH [of st1] s1 show ?thesis by auto
  next
    case False
    then have "run_commands int_of cfg g (c # cs) st = (o1, st1)"
      by (cases o1) (simp_all add: h)
    with s1 show ?thesis by simp
  qed
qed

lemma tick_unfold:
  assumes "g = engine_step g0"
    and "register_event int_of polled
           (st\<lparr>trace := trace st @ [Step g, AddScalar g, Flush, LogStats g]\<rparr>) = Inr (command, st2)"
  shows "tick int_of cfg polled g0 st =
     run_commands int_of cfg g (command # fired_commands g (pending_events g (events st2)))
       (st2\<lparr>events := pending_events g (events st2)\<rparr>)"
  using assms by (simp add: tick_def Let_def del: run_commands.simps)

lemma tick_events_fresh:
  assumes "tick int_of cfg polled g0 st = (out, st')" and "out \<noteq> Raise ValueError"
  shows "\<forall>e\<in>set (events st'). engine_step g0 \<le> snd e"
proof -
  define g where "g = engine_step g0"
  define st1 where "st1 = st\<lparr>trace := trace st @ [Step g, AddScalar g, Flush, LogStats g]\<rparr>"
  show ?thesis
  proof (cases "register_event int_of polled st1")
    case (Inl e)
    then have "e = ValueError" by (rule register_event_error)
    with Inl assms show ?thesis by (simp add: tick_def Let_def g_def st1_def)
  next
    case (Inr p)
    obtain command st2 where p: "p = (command, st2)" by (cases p)
    define st3 where "st3 = st2\<lparr>events := pending_events g (events st2)\<rparr>"
    define cs where "cs = command # fired_commands g (pending_events g (events st2))"
    have "tick int_of cfg polled g0 st = run_commands int_of cfg g cs st3"
      using Inr p tick_unfold [of g g0 int_of polled st command st2 cfg]
      by (simp add: g_def st1_def cs_def st3_def del: run_commands.simps)
    with assms(1) have "st' = snd (run_commands int_of cfg g cs st3)" by simp
    with run_commands_events [of int_of cfg g cs st3]
    have "set (events st') \<subseteq> set (events st3)" by simp
    then show ?thesis by (auto simp: pending_events_def g_def st3_def)
  qed
qed

lemma tick_drops_stale:
  assumes "snd e < engine_step g0" and "fst (tick int_of cfg polled g0 st) \<noteq> Raise ValueError"
  shows "e \<notin> set (events (snd (tick int_of cfg polled g0 st)))"
proof
  assume "e \<in> set (events (snd (tick int_of cfg polled g0 st)))"
  moreover have "\<forall>e\<in>set (events (snd (tick int_of cfg polled g0 st))). engine_step g0 \<le> snd e"
    using assms(2)
    by (intro tick_events_fresh [where out = "fst (tick int_of cfg polled g0 st)"]) simp_all
  ultimately show False using assms(1) by auto
qed


section \<open>How a tick can end\<close>

lemma handle_command_outcome:
  "fst (handle_command int_of cfg g c st) \<in> {Normal, Return, Raise ZeroDivisionError}"
  by (simp add: handle_command_def Let_def)

lemma run_commands_outcome:
  "fst (run_commands int_of cfg g cs st) \<in> {Normal, Return, Raise ZeroDivisionError}"
proof (induction cs arbitrary: st)
  case Nil
  show ?case by simp
next
  case (Cons c cs)
  obtain o1 st1 where h: "handle_command int_of cfg g c st = (o1, st1)"
    by (cases "handle_command int_of cfg g c st")
  have nb: "o1 \<in> {Normal, Return, Raise ZeroDivisionError}"
    using handle_command_outcome [of int_of cfg g c st] by (simp add: h)
  show ?case
  proof (cases "o1 = Normal")
    case True
    then have "run_commands int_of cfg g (c # cs) st = run_commands int_of cfg g cs st1"
      by (simp add: h)
    with Cons.IH [of st1] show ?thesis by simp
  next
    case False
    then have "run_commands int_of cfg g (c # cs) st = (o1, st1)"
      by (cases o1) (simp_all add: h)
    with nb show ?thesis by simp
  qed
qed

lemma tick_outcome:
  "fst (tick int_of cfg polled g0 st) \<in> {Normal, Return, Raise ZeroDivisionError, Raise ValueError}"
proof -
  define g where "g = engine_step g0"
  define st1 where "st1 = st\<lparr>trace := trace st @ [Step g, AddScalar g, Flush, LogStats g]\<rparr>"
  show ?thesis
  proof (cases "register_event int_of polled st1")
    case (Inl e)
    then have "e = ValueError" by (rule register_event_error)
    with Inl show ?thesis by (simp add: tick_def Let_def g_def st1_def)
  next
    case (Inr p)
    obtain command st2 where p: "p = (command, st2)" by (cases p)
    have "tick int_of cfg polled g0 st =
        run_commands int_of cfg g (command # fired_commands g (pending_events g (events st2)))
          (st2\<lparr>events := pending_events g (events st2)\<rparr>)"
      using Inr p by (intro tick_unfold) (simp_all add: g_def st1_def)
    then show ?thesis
      using run_commands_outcome [of int_of cfg g
          "command # fired_commands g (pending_events g (events st2))"
          "st2\<lparr>events := pending_events g (events st2)\<rparr>"]
      by auto
  qed
qed

lemma tick_registered_no_value_error:
  assumes "register_event int_of polled
       (st\<lparr>trace := trace st @ [Step (engine_step g0), AddScalar (engine_step g0), Flush,
                                LogStats (engine_step g0)]\<rparr>) = Inr p"
  shows "fst (tick int_of cfg polled g0 st) \<noteq> Raise ValueError"
proof -
  obtain command st2 where p: "p = (command, st2)" by (cases p)
  have "tick int_of cfg polled g0 st =
      run_commands int_of cfg (engine_step g0)
        (command # fired_commands (engine_step g0) (pending_events (engine_step g0) (events st2)))
        (st2\<lparr>events := pending_events (engine_step g0) (events st2)\<rparr>)"
    using assms p by (intro tick_unfold) simp_all
  then show ?thesis
    using run_commands_outcome [of int_of cfg "engine_step g0"
        "command # fired_commands (engine_step g0) (pending_events (engine_step g0) (events st2))"
        "st2\<lparr>events := pending_events (engine_step g0) (events st2)\<rparr>"]
    by auto
qed

section \<open>Counting the effects of a run\<close>

lemma fetched_log: "fetched (log e st) = fetched st + (if is_fetch e then 1 else 0)"
  by (simp add: fetched_def log_def)

lemma stepped_log: "stepped (log e st) = stepped st + (if is_step e then 1 else 0)"
  by (simp add: stepped_def log_def)

lemma flushed_log: "flushed (log e st) = flushed st + (if is_flush e then 1 else 0)"
  by (simp add: flushed_def log_def)

lemma registered_log: "registered (log e st) = registered st + (if is_registered e then 1 else 0)"
  by (simp add: registered_def log_def)

lemmas counts_log = fetched_log stepped_log flushed_log registered_log

lemma counts_events_update:
  "fetched (st\<lparr>events := evs\<rparr>) = fetched st" "stepped (st\<lparr>events := evs\<rparr>) = stepped st"
  "flushed (st\<lparr>events := evs\<rparr>) = flushed st" "registered (st\<lparr>events := evs\<rparr>) = registered st"
  by (simp_all add: fetched_def stepped_def flushed_def registered_def)

lemma time_query_counts:
  "fetched (time_query int_of cfg g c st) = fetched st"
  "stepped (time_query int_of cfg g c st) = stepped st"
  "flushed (time_query int_of cfg g c st) = flushed st"
  "registered (time_query int_of cfg g c st) = registered st"
  by (simp_all add: time_query_def counts_log split: option.splits)

lemma handle_command_counts:
  "fetched (snd (handle_command int_of cfg g c st)) = fetched st"
  "stepped (snd (handle_command int_of cfg g c st)) = stepped st"
  "flushed (snd (handle_command int_of cfg g c st)) = flushed st"
  "registered (snd (handle_command int_of cfg g c st)) = registered st"
  by (simp_all add: handle_command_def Let_def counts_log counts_events_update
        time_query_counts)

lemma run_commands_counts:
  "fetched (snd (run_commands int_of cfg g cs st)) = fetched st \<and>
   stepped (snd (run_commands int_of cfg g cs st)) = stepped st \<and>
   flushed (snd (run_commands int_of cfg g cs st)) = flushed st \<and>
   registered (snd (run_commands int_of cfg g cs st)) = registered st"
proof (induction cs arbitrary: st)
  case Nil
  show ?case by simp
next
  case (Cons c cs)
  obtain o1 st1 where h: "handle_command int_of cfg g c st = (o1, st1)"
    by (cases "handle_command int_of cfg g c st")
  have s1: "fetched st1 = fetched st" "stepped st1 = stepped st"
      "flushed st1 = flushed st" "registered st1 = registered st"
    using handle_command_counts [of int_of cfg g c st] by (simp_all add: h)
  show ?case
  proof (cases "o1 = Normal")
    case True
    then have "run_commands int_of cfg g (c # cs) st = run_commands int_of cfg g cs st1"
      by (simp add: h)
    with Cons.IH [of st1] s1 show ?thesis by simp
  next
    case False
    then have "run_commands int_of cfg g (c # cs) st = (o1, st1)"
      by (cases o1) (simp_all add: h)
    with s1 show ?thesis by simp
  qed
qed

lemma register_event_counts:
  "register_event int_of c st = Inr (c', st2) \<Longrightarrow>
   fetched st2 = fetched st \<and> stepped st2 = stepped st \<and> flushed st2 = flushed st"
  by (auto simp: register_event_def counts_log counts_events_update
        split: if_splits list.splits option.splits)

lemma tick_counts:
  "fetched (snd (tick int_of cfg polled g0 st)) = fetched st \<and>
   stepped (snd (tick int_of cfg polled g0 st)) = stepped st + 1 \<and>
   flushed (snd (tick int_of cfg polled g0 st)) = flushed st + 1"
proof -
  define g where "g = engine_step g0"
  define st1 where "st1 = st\<lparr>trace := trace st @ [Step g, AddScalar g, Flush, LogStats g]\<rparr>"
  have c1: "fetched st1 = fetched st" "stepped st1 = stepped st + 1" "flushed st1 = flushed st + 1"
    by (simp_all add: st1_def fetched_def stepped_def flushed_def)
  show ?thesis
  proof (cases "register_event int_of polled st1")
    case (Inl e)
    then have "tick int_of cfg polled g0 st = (Raise e, st1)"
      by (simp add: tick_def Let_def g_def st1_def)
    with c1 show ?thesis by simp
  next
    case (Inr p)
    obtain command st2 where p: "p = (command, st2)" by (cases p)
    define st3 where "st3 = st2\<lparr>events := pending_events g (events st2)\<rparr>"
    define cs where "cs = command # fired_commands g (pending_events g (events st2))"
    have "tick int_of cfg polled g0 st = run_commands int_of cfg g cs st3"
      using Inr p tick_unfold [of g g0 int_of polled st command st2 cfg]
      by (simp add: g_def st1_def cs_def st3_def del: run_commands.simps)
    moreover have "fetched st3 = fetched st1" "stepped st3 = stepped st1" "flushed st3 = flushed st1"
      using register_event_counts [of int_of polled st1 command st2] Inr p
      by (simp_all add: st3_def counts_events_update)
    ultimately show ?thesis
      using run_commands_counts [of int_of cfg g cs st3] c1 by simp
  qed
qed

lemma tick_registered:
  assumes "\<not> py_in ''@'' polled"
  shows "registered (snd (tick int_of cfg polled g0 st)) = registered st"
proof -
  define g where "g = engine_step g0"
  define st1 where "st1 = st\<lparr>trace := trace st @ [Step g, AddScalar g, Flush, LogStats g]\<rparr>"
  have c1: "registered st1 = registered st"
    by (simp add: st1_def registered_def)
  have r: "register_event int_of polled st1 = Inr (polled, st1)"
    using assms by (rule register_event_no_at)
  have "tick int_of cfg polled g0 st =
      run_commands int_of cfg g (polled # fired_commands g (pending_events g (events st1)))
        (st1\<lparr>events := pending_events g (events st1)\<rparr>)"
    using r by (intro tick_unfold) (simp_all add: g_def st1_def)
  then show ?thesis
    using run_commands_counts [of int_of cfg g
        "polled # fired_commands g (pending_events g (events st1))"
        "st1\<lparr>events := pending_events g (events st1)\<rparr>"] c1
    by (simp add: counts_events_update)
qed

lemma make_infinite_epochs_quiet:
  "make_infinite_epochs dl rest = Some (effs, b, rest') \<Longrightarrow>
   filter is_fetch effs = [] \<and> filter is_step effs = [] \<and>
   filter is_flush effs = [] \<and> filter is_registered effs = []"
  by (cases rest; cases dl) auto

lemma tick_not_break: "fst (tick int_of cfg polled g0 st) \<noteq> Break"
  using tick_outcome [of int_of cfg polled g0 st] by auto

lemma train_loop_counts:
  "fetched (snd (train_loop int_of poll cfg dl rest g st)) + stepped st =
   fetched st + stepped (snd (train_loop int_of poll cfg dl rest g st))
     + (if fst (train_loop int_of poll cfg dl rest g st) = Break then 1 else 0) \<and>
   flushed (snd (train_loop int_of poll cfg dl rest g st)) + stepped st =
   flushed st + stepped (snd (train_loop int_of poll cfg dl rest g st)) \<and>
   (fst (train_loop int_of poll cfg dl rest g st) = Break \<longrightarrow>
      (\<exists>t b. trace (snd (train_loop int_of poll cfg dl rest g st)) = t @ [Fetch b]))"
proof (induction int_of poll cfg dl rest g st rule: train_loop.induct)
  case (1 int_of poll cfg dl rest g st)
  show ?case
  proof (cases "make_infinite_epochs dl rest")
    case None
    then have "train_loop int_of poll cfg dl rest g st = (Hang, st)"
      by (subst train_loop.simps) simp
    then show ?thesis by simp
  next
    case (Some x)
    obtain effs batch rest' where x: "x = (effs, batch, rest')" by (cases x)
    have p1: "make_infinite_epochs dl rest = Some (effs, batch, rest')"
      using Some x by simp
    define st1 where "st1 = st\<lparr>trace := trace st @ effs @ [Fetch batch]\<rparr>"
    have c1: "fetched st1 = fetched st + 1" "stepped st1 = stepped st" "flushed st1 = flushed st"
      using make_infinite_epochs_quiet [OF p1]
      by (simp_all add: st1_def fetched_def stepped_def flushed_def)
    show ?thesis
    proof (cases "max_iter cfg \<le> g")
      case True
      then have "train_loop int_of poll cfg dl rest g st = (Break, st1)"
        by (subst train_loop.simps) (simp add: p1 st1_def)
      moreover have "trace st1 = (trace st @ effs) @ [Fetch batch]"
        by (simp add: st1_def)
      ultimately show ?thesis using c1 by auto
    next
      case False
      obtain o2 st2 where t: "tick int_of cfg (poll (engine_step g)) g st1 = (o2, st2)"
        by (cases "tick int_of cfg (poll (engine_step g)) g st1")
      have c2: "fetched st2 = fetched st1" "stepped st2 = stepped st1 + 1"
          "flushed st2 = flushed st1 + 1"
        using tick_counts [of int_of cfg "poll (engine_step g)" g st1] by (simp_all add: t)
      show ?thesis
      proof (cases "o2 = Normal")
        case True
        have "train_loop int_of poll cfg dl rest g st =
              train_loop int_of poll cfg dl rest' (engine_step g) st2"
          using False t True by (subst train_loop.simps) (simp add: p1 st1_def [symmetric])
        moreover note "1.IH" [OF p1 refl refl st1_def False t [symmetric] True]
        ultimately show ?thesis using c1 c2 by simp
      next
        case neq: False
        have "train_loop int_of poll cfg dl rest g st = (o2, st2)"
          using False t neq
          by (subst train_loop.simps) (cases o2; simp add: p1 st1_def [symmetric])
        moreover have "o2 \<noteq> Break"
          using tick_not_break [of int_of cfg "poll (engine_step g)" g st1] by (simp add: t)
        ultimately show ?thesis using c1 c2 by simp
      qed
    qed
  qed
qed

section \<open>The program as shipped: every polled command is the one-blank string\<close>

lemma run_commands_single:
  "run_commands int_of cfg g [c] st = handle_command int_of cfg g c st"
proof -
  obtain o1 st1 where h: "handle_command int_of cfg g c st = (o1, st1)"
    by (cases "handle_command int_of cfg g c st")
  show ?thesis by (cases o1) (simp_all add: h)
qed

lemma handle_command_blank:
  "fst (handle_command int_of cfg g '' '' st) =
     (if ckpt_cadence cfg = 0 \<or> eval_every cfg = 0 then Raise ZeroDivisionError else Normal)"
  "events (snd (handle_command int_of cfg g '' '' st)) = events st"
  by (simp_all add: handle_command_def Let_def log_events)

lemma tick_blank:
  assumes "events st = []"
  shows "fst (tick int_of cfg '' '' g0 st) =
     (if ckpt_cadence cfg = 0 \<or> eval_every cfg = 0 then Raise ZeroDivisionError else Normal)"
    and "events (snd (tick int_of cfg '' '' g0 st)) = []"
proof -
  define g where "g = engine_step g0"
  define st1 where "st1 = st\<lparr>trace := trace st @ [Step g, AddScalar g, Flush, LogStats g]\<rparr>"
  have e1: "events st1 = []" using assms by (simp add: st1_def)
  have r: "register_event int_of '' '' st1 = Inr ('' '', st1)"
    by (rule register_event_no_at) simp
  have "tick int_of cfg '' '' g0 st =
      run_commands int_of cfg g ('' '' # fired_commands g (pending_events g (events st1)))
        (st1\<lparr>events := pending_events g (events st1)\<rparr>)"
    using r by (intro tick_unfold) (simp_all add: g_def st1_def)
  also have "\<dots> = handle_command int_of cfg g '' '' (st1\<lparr>events := []\<rparr>)"
    by (simp add: e1 pending_events_def fired_commands_def firing_events_def run_commands_single
          del: run_commands.simps)
  finally have eq: "tick int_of cfg '' '' g0 st = handle_command int_of cfg g '' '' (st1\<lparr>events := []\<rparr>)" .
  show "fst (tick int_of cfg '' '' g0 st) =
     (if ckpt_cadence cfg = 0 \<or> eval_every cfg = 0 then Raise ZeroDivisionError else Normal)"
    by (simp only: eq handle_command_blank)
  show "events (snd (tick int_of cfg '' '' g0 st)) = []"
    by (simp add: eq handle_command_blank)
qed

lemma train_loop_shipped:
  "(\<forall>i. poll i = '' '') \<Longrightarrow> events st = [] \<Longrightarrow>
   events (snd (train_loop int_of poll cfg dl rest g st)) = [] \<and>
   registered (snd (train_loop int_of poll cfg dl rest g st)) = registered st \<and>
   fst (train_loop int_of poll cfg dl rest g st) \<in> {Break, Hang, Raise ZeroDivisionError} \<and>
   (dl \<noteq> [] \<and> ckpt_cadence cfg \<noteq> 0 \<and> eval_every cfg \<noteq> 0 \<longrightarrow>
      fst (train_loop int_of poll cfg dl rest g st) = Break)"
proof (induction int_of poll cfg dl rest g st rule: train_loop.induct)
  case (1 int_of poll cfg dl rest g st)
  have blank: "poll (engine_step g) = '' ''" using "1.prems"(1) by simp
  show ?case
  proof (cases "make_infinite_epochs dl rest")
    case None
    then have "train_loop int_of poll cfg dl rest g st = (Hang, st)"
      by (subst train_loop.simps) simp
    moreover have "dl = []" using None by (cases rest; cases dl) simp_all
    ultimately show ?thesis using "1.prems"(2) by simp
  next
    case (Some x)
    obtain effs batch rest' where x: "x = (effs, batch, rest')" by (cases x)
    have p1: "make_infinite_epochs dl rest = Some (effs, batch, rest')"
      using Some x by simp
    define st1 where "st1 = st\<lparr>trace := trace st @ effs @ [Fetch batch]\<rparr>"
    have c1: "events st1 = []" "registered st1 = registered st"
      using make_infinite_epochs_quiet [OF p1] "1.prems"(2)
      by (simp_all add: st1_def registered_def)
    show ?thesis
    proof (cases "max_iter cfg \<le> g")
      case True
      then have "train_loop int_of poll cfg dl rest g st = (Break, st1)"
        by (subst train_loop.simps) (simp add: p1 st1_def)
      with c1 show ?thesis by simp
    next
      case False
      obtain o2 st2 where t: "tick int_of cfg (poll (engine_step g)) g st1 = (o2, st2)"
        by (cases "tick int_of cfg (poll (engine_step g)) g st1")
      have o2: "o2 = (if ckpt_cadence cfg = 0 \<or> eval_every cfg = 0
                      then Raise ZeroDivisionError else Normal)"
        using tick_blank(1) [OF c1(1), of int_of cfg g] t by (simp add: blank)
      have c2: "events st2 = []"
        using tick_blank(2) [OF c1(1), of int_of cfg g] t by (simp add: blank)
      have c3: "registered st2 = registered st1"
        using tick_registered [of "'' ''" int_of cfg g st1] t by (simp add: blank)
      show ?thesis
      proof (cases "o2 = Normal")
        case True
        have "train_loop int_of poll cfg dl rest g st =
              train_loop int_of poll cfg dl rest' (engine_step g) st2"
          using False t True by (subst train_loop.simps) (simp add: p1 st1_def [symmetric])
        moreover note "1.IH" [OF p1 refl refl st1_def False t [symmetric] True "1.prems"(1) c2]
        ultimately show ?thesis using c1 c3 by simp
      next
        case neq: False
        have "train_loop int_of poll cfg dl rest g st = (o2, st2)"
          using False t neq
          by (subst train_loop.simps) (cases o2; simp add: p1 st1_def [symmetric])
        moreover have "o2 = Raise ZeroDivisionError" "ckpt_cadence cfg = 0 \<or> eval_every cfg = 0"
          using o2 neq by (simp_all split: if_splits)
        ultimately show ?thesis using c1 c2 c3 by auto
      qed
    qed
  qed
qed

lemma train_unfold:
  "train int_of env eng dl =
     (case train_loop int_of (\<lambda>i. '' '') (eng_cfg eng) dl [] (eng_global_step eng)
             \<lparr>events = [], trace = [OpenWriter]\<rparr> of
        (Break, st) \<Rightarrow> (Normal, log Flush st)
      | r \<Rightarrow> r)"
  by (simp add: train_def train_with_def non_blocking_input_def Let_def log_def)

lemma shipped_train:
  "events (snd (train int_of env eng dl)) = [] \<and>
   registered (snd (train int_of env eng dl)) = 0 \<and>
   fst (train int_of env eng dl) \<in> {Normal, Hang, Raise ZeroDivisionError} \<and>
   (dl \<noteq> [] \<and> ckpt_cadence (eng_cfg eng) \<noteq> 0 \<and> eval_every (eng_cfg eng) \<noteq> 0 \<longrightarrow>
      fst (train int_of env eng dl) = Normal) \<and>
   (fst (train int_of env eng dl) = Normal \<longrightarrow>
      (\<exists>t b. trace (snd (train int_of env eng dl)) = t @ [Fetch b, Flush]) \<and>
      flushed (snd (train int_of env eng dl)) = stepped (snd (train int_of env eng dl)) + 1)"
proof -
  define st0 :: "'a loop_state" where "st0 = \<lparr>events = [], trace = [OpenWriter]\<rparr>"
  obtain oL sL where L: "train_loop int_of (\<lambda>i. '' '') (eng_cfg eng) dl [] (eng_global_step eng) st0
      = (oL, sL)"
    by (cases "train_loop int_of (\<lambda>i. '' '') (eng_cfg eng) dl [] (eng_global_step eng) st0")
  have z: "events st0 = []" "registered st0 = 0" "flushed st0 = 0" "stepped st0 = 0"
    by (simp_all add: st0_def registered_def flushed_def stepped_def)
  have s: "events sL = []" "registered sL = 0" "oL \<in> {Break, Hang, Raise ZeroDivisionError}"
      "dl \<noteq> [] \<and> ckpt_cadence (eng_cfg eng) \<noteq> 0 \<and> eval_every (eng_cfg eng) \<noteq> 0 \<longrightarrow> oL = Break"
    using train_loop_shipped [of "\<lambda>i. '' ''" st0 int_of "eng_cfg eng" dl "[]" "eng_global_step eng"] z
    by (simp_all add: L)
  have k: "flushed sL = stepped sL" "oL = Break \<longrightarrow> (\<exists>t b. trace sL = t @ [Fetch b])"
    using train_loop_counts [of int_of "\<lambda>i. '' ''" "eng_cfg eng" dl "[]" "eng_global_step eng" st0] z
    by (simp_all add: L)
  show ?thesis
  proof (cases "oL = Break")
    case True
    then have T: "train int_of env eng dl = (Normal, log Flush sL)"
      by (simp add: train_unfold L st0_def [symmetric])
    from k(2) True obtain t b where tb: "trace sL = t @ [Fetch b]" by blast
    have "trace (log Flush sL) = t @ [Fetch b, Flush]"
      by (simp add: log_def tb)
    then have "\<exists>t b. trace (log Flush sL) = t @ [Fetch b, Flush]" by blast
    moreover have "flushed (log Flush sL) = stepped (log Flush sL) + 1"
      by (simp add: counts_log k(1))
    ultimately show ?thesis
      using s by (simp add: T log_events registered_log)
  next
    case False
    then have T: "train int_of env eng dl = (oL, sL)"
      by (cases oL) (simp_all add: train_unfold L st0_def [symmetric])
    from False s(3) have "oL \<noteq> Normal" by auto
    with False s show ?thesis by (auto simp: T)
  qed
qed


section \<open>Stale events\<close>

text \<open>
  C7. An event whose trigger iteration is less than the iteration \<open>g\<close> at which the
  schedule is resolved is neither kept as pending nor among the firing events, and the
  result of resolving is the same as if it had never been registered. That holds on every
  tick: after a tick that got past the registration step, no such event is in the
  schedule.
\<close>

theorem stale_events_dropped:
  assumes "snd e < g" and "g = engine_step g0"
  shows "e \<notin> set (pending_events g evs) \<and>
         e \<notin> set (firing_events g (pending_events g evs)) \<and>
         pending_events g (removeAll e evs) = pending_events g evs \<and>
         fired_commands g (pending_events g (removeAll e evs)) = fired_commands g (pending_events g evs) \<and>
         (fst (tick int_of cfg polled g0 st) \<noteq> Raise ValueError \<longrightarrow>
            e \<notin> set (events (snd (tick int_of cfg polled g0 st))))"
proof -
  have keep: "pending_events g (removeAll e evs) = pending_events g evs"
    using assms(1) by (induction evs) (auto simp: pending_events_def)
  have "e \<notin> set (pending_events g evs)"
    using assms(1) by (auto simp: pending_events_def)
  moreover have "e \<notin> set (firing_events g (pending_events g evs))"
    using assms(1) by (auto simp: firing_events_def)
  moreover have "fst (tick int_of cfg polled g0 st) \<noteq> Raise ValueError \<longrightarrow>
      e \<notin> set (events (snd (tick int_of cfg polled g0 st)))"
    using assms tick_drops_stale [of e g0 int_of cfg polled st] by simp
  ultimately show ?thesis by (simp add: keep)
qed

text \<open>
  C7 at iteration 5 (the tick entered at iteration 4), with the stale event \<open>x@3\<close> between
  two live ones.
\<close>

theorem stale_events_dropped_witness:
  "(''x'', 3) \<notin> set (pending_events 5 [(''event show'', 5), (''x'', 3), (''y'', 9)]) \<and>
   fired_commands 5 (pending_events 5 (removeAll (''x'', 3) [(''event show'', 5), (''x'', 3), (''y'', 9)]))
     = fired_commands 5 (pending_events 5 [(''event show'', 5), (''x'', 3), (''y'', 9)]) \<and>
   (\<forall>int_of. (''x'', 3) \<notin> set (events (snd (tick int_of
      \<lparr>max_iter = 50, save_ckpt_every = Some 7, eval_every = 1000, save_on_quit = False\<rparr> '' '' 4
      \<lparr>events = [(''event show'', 5), (''x'', 3), (''y'', 9)], trace = ([] :: nat effect list)\<rparr>))))"
proof -
  have h1: "snd (''x'', 3::int) < 5" by simp
  have h2: "(5::int) = engine_step 4" by (simp add: engine_step_def)
  have h3: "fst (tick int_of
      \<lparr>max_iter = 50, save_ckpt_every = Some 7, eval_every = 1000, save_on_quit = False\<rparr> '' '' 4
      \<lparr>events = [(''event show'', 5), (''x'', 3), (''y'', 9)], trace = ([] :: nat effect list)\<rparr>)
      \<noteq> Raise ValueError" for int_of
    by code_simp
  have "(''x'', 3) \<notin> set (pending_events 5 [(''event show'', 5), (''x'', 3), (''y'', 9)]) \<and>
     fired_commands 5 (pending_events 5 (removeAll (''x'', 3) [(''event show'', 5), (''x'', 3), (''y'', 9)]))
       = fired_commands 5 (pending_events 5 [(''event show'', 5), (''x'', 3), (''y'', 9)]) \<and>
     (''x'', 3) \<notin> set (events (snd (tick int_of
        \<lparr>max_iter = 50, save_ckpt_every = Some 7, eval_every = 1000, save_on_quit = False\<rparr> '' '' 4
        \<lparr>events = [(''event show'', 5), (''x'', 3), (''y'', 9)], trace = ([] :: nat effect list)\<rparr>)))"
    for int_of
    using stale_events_dropped [OF h1 h2, of "[(''event show'', 5), (''x'', 3), (''y'', 9)]" int_of
      "\<lparr>max_iter = 50, save_ckpt_every = Some 7, eval_every = 1000, save_on_quit = False\<rparr>" "'' ''"
      "\<lparr>events = [(''event show'', 5), (''x'', 3), (''y'', 9)], trace = ([] :: nat effect list)\<rparr>"]
      h3 [of int_of]
    by blast
  then show ?thesis by blast
qed

section \<open>The loop: fetching and stopping\<close>

text \<open>
  C5, as stated, fails: entered with the iteration already at the maximum (5), the loop
  pulls a batch from the iterator before it tests the iteration and leaves.
\<close>

theorem batch_fetched_at_max_iter:
  "\<forall>int_of. train_loop int_of (\<lambda>i. '' '')
     \<lparr>max_iter = 5, save_ckpt_every = Some 2, eval_every = 1000, save_on_quit = False\<rparr>
     [1::nat, 2, 3] [] 5 \<lparr>events = [], trace = []\<rparr>
   = (Break, \<lparr>events = [], trace = [NewEpoch, Fetch 1]\<rparr>)"
  by (rule allI) code_simp

text \<open>
  C5, amended. At the top of every tick the next batch is pulled from the infinite epoch
  iterator first; if the current iteration is then greater than or equal to the
  configured maximum, the loop is left at once, without a training step on that batch and
  without processing any command. So a run of the loop that ends at the maximum has
  pulled exactly one batch more than it has trained on: one batch, and no more, is pulled
  after the iteration counter has reached the maximum.
\<close>

theorem max_iter_checked_after_fetch:
  "(max_iter cfg \<le> g \<and> make_infinite_epochs dl rest = Some (effs, b, rest') \<longrightarrow>
      train_loop int_of poll cfg dl rest g st = (Break, st\<lparr>trace := trace st @ effs @ [Fetch b]\<rparr>)) \<and>
   (fst (train_loop int_of poll cfg dl rest g st) = Break \<longrightarrow>
      fetched (snd (train_loop int_of poll cfg dl rest g st)) + stepped st =
      fetched st + stepped (snd (train_loop int_of poll cfg dl rest g st)) + 1)"
proof -
  have "max_iter cfg \<le> g \<and> make_infinite_epochs dl rest = Some (effs, b, rest') \<longrightarrow>
      train_loop int_of poll cfg dl rest g st = (Break, st\<lparr>trace := trace st @ effs @ [Fetch b]\<rparr>)"
    by (subst train_loop.simps) simp
  moreover have "fst (train_loop int_of poll cfg dl rest g st) = Break \<longrightarrow>
      fetched (snd (train_loop int_of poll cfg dl rest g st)) + stepped st =
      fetched st + stepped (snd (train_loop int_of poll cfg dl rest g st)) + 1"
    using train_loop_counts [of int_of poll cfg dl rest g st] by simp
  ultimately show ?thesis by blast
qed

text \<open>
  The amended C5 in the middle of a pass, entered past the maximum, and for a run from
  iteration 3 to the maximum 5.
\<close>

theorem max_iter_checked_after_fetch_witness:
  "(\<forall>int_of. train_loop int_of (\<lambda>i. '' '')
     \<lparr>max_iter = 5, save_ckpt_every = Some 2, eval_every = 1000, save_on_quit = False\<rparr>
     [1::nat, 2, 3] [2, 3] 7 \<lparr>events = [], trace = [OpenWriter]\<rparr>
   = (Break, \<lparr>events = [], trace = [OpenWriter, Fetch 2]\<rparr>)) \<and>
   (\<forall>int_of. fetched (snd (train_loop int_of (\<lambda>i. '' '')
     \<lparr>max_iter = 5, save_ckpt_every = Some 2, eval_every = 1000, save_on_quit = False\<rparr>
     [1::nat, 2, 3] [] 3 \<lparr>events = [], trace = []\<rparr>))
   = stepped (snd (train_loop int_of (\<lambda>i. '' '')
     \<lparr>max_iter = 5, save_ckpt_every = Some 2, eval_every = 1000, save_on_quit = False\<rparr>
     [1::nat, 2, 3] [] 3 \<lparr>events = [], trace = []\<rparr>)) + 1)"
proof -
  have h1: "max_iter \<lparr>max_iter = 5, save_ckpt_every = Some 2, eval_every = 1000, save_on_quit = False\<rparr> \<le> 7
      \<and> make_infinite_epochs [1::nat, 2, 3] [2, 3] = Some ([], 2, [3])"
    by simp
  have h2: "fst (train_loop int_of (\<lambda>i. '' '')
     \<lparr>max_iter = 5, save_ckpt_every = Some 2, eval_every = 1000, save_on_quit = False\<rparr>
     [1::nat, 2, 3] [] 3 \<lparr>events = [], trace = []\<rparr>) = Break" for int_of
    by code_simp
  have a: "train_loop int_of (\<lambda>i. '' '')
     \<lparr>max_iter = 5, save_ckpt_every = Some 2, eval_every = 1000, save_on_quit = False\<rparr>
     [1::nat, 2, 3] [2, 3] 7 \<lparr>events = [], trace = [OpenWriter]\<rparr>
   = (Break, \<lparr>events = [], trace = [OpenWriter, Fetch 2]\<rparr>)" for int_of
    using max_iter_checked_after_fetch [of
      "\<lparr>max_iter = 5, save_ckpt_every = Some 2, eval_every = 1000, save_on_quit = False\<rparr>"
      7 "[1::nat, 2, 3]" "[2, 3]" "[]" 2 "[3]" int_of "\<lambda>i. '' ''"
      "\<lparr>events = [], trace = [OpenWriter]\<rparr>"] h1
    by simp
  have b: "fetched (snd (train_loop int_of (\<lambda>i. '' '')
     \<lparr>max_iter = 5, save_ckpt_every = Some 2, eval_every = 1000, save_on_quit = False\<rparr>
     [1::nat, 2, 3] [] 3 \<lparr>events = [], trace = []\<rparr>))
   = stepped (snd (train_loop int_of (\<lambda>i. '' '')
     \<lparr>max_iter = 5, save_ckpt_every = Some 2, eval_every = 1000, save_on_quit = False\<rparr>
     [1::nat, 2, 3] [] 3 \<lparr>events = [], trace = []\<rparr>)) + 1" for int_of
    using max_iter_checked_after_fetch [of
      "\<lparr>max_iter = 5, save_ckpt_every = Some 2, eval_every = 1000, save_on_quit = False\<rparr>"
      3 "[1::nat, 2, 3]" "[]" "[]" 1 "[]" int_of "\<lambda>i. '' ''" "\<lparr>events = [], trace = []\<rparr>"]
      h2 [of int_of]
    by (simp add: fetched_def stepped_def)
  from a b show ?thesis by blast
qed

section \<open>The polled command\<close>

text \<open>
  C2, as stated, fails: with the line \<open>save\<close> waiting on the global leader's standard
  input, the command that \<open>_non_blocking_input\<close> returns is not that line.
\<close>

theorem polled_command_not_operator_line:
  "non_blocking_input \<lparr>stdin_line = Some ''save'', global_rank = 0\<rparr> \<noteq> ''save''"
  by (simp add: non_blocking_input_def)

text \<open>
  C2, amended. \<open>_non_blocking_input\<close> returns the constant one-blank string, whatever
  line the operator has typed and whatever the rank of the process, so every rank gets
  the same command. A run of \<open>train\<close> is the run in which the command polled before the
  loop and on every tick is that string, and it is the same run for every operator input.
\<close>

theorem polled_command_is_constant:
  "non_blocking_input e = '' '' \<and>
   non_blocking_input e = non_blocking_input e' \<and>
   train int_of env eng dl = train_with int_of (\<lambda>i. '' '') eng dl \<and>
   train int_of env eng dl = train int_of env' eng dl"
  by (simp add: non_blocking_input_def train_def)

section \<open>Operator input and failures\<close>

text \<open>
  C3. For every operator input string, a run of \<open>train\<close> does not end with the
  \<open>ValueError\<close> of a failed parse, and the run is the same as for every other input
  string: no input string causes an exception that aborts a tick or the loop. In the
  registration code, for a command with exactly one \<open>@\<close> whose trigger text \<open>int\<close>
  cannot parse, the failure is caught: it is logged, nothing is registered, the live
  command becomes empty, and the tick does not end with \<open>ValueError\<close>.
\<close>

theorem operator_input_never_aborts:
  "fst (train int_of env eng dl) \<noteq> Raise ValueError \<and>
   train int_of env eng dl = train int_of env' eng dl \<and>
   (CHR ''@'' \<notin> set what \<and> CHR ''@'' \<notin> set trigger \<and> int_of trigger = None \<longrightarrow>
      register_event int_of (what @ ''@'' @ trigger) (st :: 'c loop_state) = Inr ([], log LogError st) \<and>
      fst (tick int_of cfg (what @ ''@'' @ trigger) g0 st) \<noteq> Raise ValueError)"
proof -
  have a: "fst (train int_of env eng dl) \<noteq> Raise ValueError"
    using shipped_train [of int_of env eng dl] by auto
  have b: "train int_of env eng dl = train int_of env' eng dl"
    by (simp add: train_def non_blocking_input_def)
  have c: "register_event int_of (what @ ''@'' @ trigger) s = Inr ([], log LogError s)"
    if "CHR ''@'' \<notin> set what" "CHR ''@'' \<notin> set trigger" "int_of trigger = None" for s :: "'c loop_state"
  proof -
    have "py_split ''@'' [] (what @ ''@'' @ trigger) = [what, trigger]"
      using that by (simp add: py_split_first py_split_no_sep)
    moreover have "py_in ''@'' (what @ ''@'' @ trigger)"
      by (simp add: py_in_single)
    ultimately show ?thesis
      using that(3) by (simp add: register_event_def)
  qed
  have d: "fst (tick int_of cfg (what @ ''@'' @ trigger) g0 (st :: 'c loop_state)) \<noteq> Raise ValueError"
    if "CHR ''@'' \<notin> set what" "CHR ''@'' \<notin> set trigger" "int_of trigger = None"
    by (rule tick_registered_no_value_error) (rule c [OF that])
  from a b c [of st] d show ?thesis by blast
qed

text \<open>
  C3 for the command \<open>save@abc\<close>, whose trigger text \<open>int\<close> rejects: the failure is
  logged, the schedule is unchanged, and the tick at iteration 5 goes on.
\<close>

theorem operator_input_never_aborts_witness:
  "register_event example_int ''save@abc'' \<lparr>events = [(''y'', 9)], trace = ([] :: nat effect list)\<rparr>
     = Inr ([], \<lparr>events = [(''y'', 9)], trace = [LogError]\<rparr>) \<and>
   fst (tick example_int
      \<lparr>max_iter = 50, save_ckpt_every = Some 7, eval_every = 1000, save_on_quit = False\<rparr>
      ''save@abc'' 4 \<lparr>events = [(''y'', 9)], trace = ([] :: nat effect list)\<rparr>) \<noteq> Raise ValueError"
proof -
  have h: "CHR ''@'' \<notin> set ''save'' \<and> CHR ''@'' \<notin> set ''abc'' \<and> example_int ''abc'' = None"
    by (simp add: example_int_def)
  from operator_input_never_aborts [where int_of = example_int and what = "''save''"
      and trigger = "''abc''"
      and st = "\<lparr>events = [(''y'', 9)], trace = ([] :: nat effect list)\<rparr>"
      and cfg = "\<lparr>max_iter = 50, save_ckpt_every = Some 7, eval_every = 1000, save_on_quit = False\<rparr>"
      and ?g0.0 = 4
      and env = "\<lambda>i. \<lparr>stdin_line = None, global_rank = 0\<rparr>"
      and env' = "\<lambda>i. \<lparr>stdin_line = None, global_rank = 0\<rparr>"
      and eng = "\<lparr>eng_global_step = 0, eng_cfg =
         \<lparr>max_iter = 50, save_ckpt_every = Some 7, eval_every = 1000, save_on_quit = False\<rparr>\<rparr>"
      and dl = "[1::nat]"] h
  show ?thesis by (simp add: log_def)
qed

section \<open>Leaving the loop\<close>

text \<open>
  C6. A run of \<open>train\<close> never ends by the \<open>return\<close> of a stop command. When it ends
  normally, which is when the loop has been left at the configured maximum iteration, the
  telemetry sink is flushed once more after the loop: the trace ends with the last pulled
  batch followed by a flush, and the run has one flush for each training step (the flush
  of that tick) and one more. With a non-empty source and cadences other than zero, every
  run ends normally.
\<close>

theorem loop_exit_flushes:
  "fst (train int_of env eng dl) \<noteq> Return \<and>
   (fst (train int_of env eng dl) = Normal \<longrightarrow>
      (\<exists>t b. trace (snd (train int_of env eng dl)) = t @ [Fetch b, Flush]) \<and>
      flushed (snd (train int_of env eng dl)) = stepped (snd (train int_of env eng dl)) + 1) \<and>
   (dl \<noteq> [] \<and> ckpt_cadence (eng_cfg eng) \<noteq> 0 \<and> eval_every (eng_cfg eng) \<noteq> 0 \<longrightarrow>
      fst (train int_of env eng dl) = Normal)"
proof -
  have "fst (train int_of env eng dl) \<noteq> Return"
    using shipped_train [of int_of env eng dl] by auto
  then show ?thesis
    using shipped_train [of int_of env eng dl] by blast
qed

text \<open>
  C6 for a run from iteration 0 to the maximum 2 over a source of three batches: it ends
  normally, with three flushes for two steps.
\<close>

theorem loop_exit_flushes_witness:
  "\<forall>int_of env.
     fst (train int_of env
       \<lparr>eng_global_step = 0, eng_cfg =
          \<lparr>max_iter = 2, save_ckpt_every = Some 1000, eval_every = 1000, save_on_quit = False\<rparr>\<rparr>
       [1::nat, 2, 3]) = Normal \<and>
     flushed (snd (train int_of env
       \<lparr>eng_global_step = 0, eng_cfg =
          \<lparr>max_iter = 2, save_ckpt_every = Some 1000, eval_every = 1000, save_on_quit = False\<rparr>\<rparr>
       [1::nat, 2, 3]))
     = stepped (snd (train int_of env
       \<lparr>eng_global_step = 0, eng_cfg =
          \<lparr>max_iter = 2, save_ckpt_every = Some 1000, eval_every = 1000, save_on_quit = False\<rparr>\<rparr>
       [1::nat, 2, 3])) + 1"
proof -
  have h: "[1::nat, 2, 3] \<noteq> [] \<and>
      ckpt_cadence (eng_cfg \<lparr>eng_global_step = 0, eng_cfg =
          \<lparr>max_iter = 2, save_ckpt_every = Some 1000, eval_every = 1000, save_on_quit = False\<rparr>\<rparr>) \<noteq> 0 \<and>
      eval_every (eng_cfg \<lparr>eng_global_step = 0, eng_cfg =
          \<lparr>max_iter = 2, save_ckpt_every = Some 1000, eval_every = 1000, save_on_quit = False\<rparr>\<rparr>) \<noteq> 0"
    by (simp add: ckpt_cadence_def)
  show ?thesis
    using loop_exit_flushes [where dl = "[1::nat, 2, 3]" and eng = "\<lparr>eng_global_step = 0, eng_cfg =
          \<lparr>max_iter = 2, save_ckpt_every = Some 1000, eval_every = 1000, save_on_quit = False\<rparr>\<rparr>"] h
    by blast
qed

section \<open>Registering events\<close>




section \<open>The life of an event\<close>




section \<open>Checkpoint cadence\<close>

text \<open>
  C1 fails on the code: the checkpoint condition also holds at the iterations 100, 300
  and 500 (marked in the source as a debugging condition to be removed). With cadence 7
  and no operator command at all, the run from iteration 0 saves a checkpoint at
  iteration 100, which is not a multiple of 7.
\<close>

theorem debug_checkpoint_off_cadence:
  "SaveCheckpoint 100 14 \<in> set (trace (snd (train int_of (\<lambda>i. \<lparr>stdin_line = None, global_rank = 0\<rparr>)
     \<lparr>eng_global_step = 0,
      eng_cfg = \<lparr>max_iter = 100, save_ckpt_every = Some 7, eval_every = 1000, save_on_quit = False\<rparr>\<rparr>
     [1::nat, 2, 3]))) \<and>
   (100::int) mod ckpt_cadence \<lparr>max_iter = 100, save_ckpt_every = Some 7, eval_every = 1000, save_on_quit = False\<rparr> = 2"
  by code_simp

end
